theory Spec2Isabelle
  imports Main "HOL-Library.Sublist"
begin

section \<open>Struct-level validation: the reporting operations of \<open>struct_level.go\<close>\<close>

text \<open>
  The file \<open>struct_level.go\<close> implements the interface \<open>StructLevel\<close> on the
  validation context \<open>*validate\<close>: the accessors \<open>Top\<close>, \<open>Parent\<close>,
  \<open>Current\<close>, \<open>Validator\<close>, the type extraction \<open>ExtractType\<close> and the two
  reporting operations \<open>ReportError\<close> and \<open>ReportValidationErrors\<close>.

  The model is a shallow embedding. Reflected values are a datatype, the context is a
  record, the error records live in an explicit store because the source keeps pointers
  to them (\<open>*fieldError\<close>) and rewrites them in place, and every panic of the source is a
  value of a sum type.
\<close>

subsection \<open>Reflected values\<close>

text \<open>
  The kinds of Go's \<open>reflect.Kind\<close>. \<open>Invalid\<close> is the kind of the zero
  \<open>reflect.Value\<close>, \<open>Ptr\<close> and \<open>Interface\<close> are the two kinds that are
  dereferenced; the remaining kinds are the kinds of data.
\<close>

datatype data_kind =
    Bool | Int | Int8 | Int16 | Int32 | Int64
  | Uint | Uint8 | Uint16 | Uint32 | Uint64 | Uintptr
  | Float32 | Float64 | Complex64 | Complex128
  | Array | Chan | Func | Map | Slice | String | Struct | UnsafePointer

datatype kind = Invalid | Ptr | Interface | Data data_kind

type_synonym tyname = string

text \<open>A \<open>reflect.Type\<close>: the name of the type and its kind.\<close>

datatype rtype = RType tyname kind

text \<open>
  A Go value as reflection sees it. A pointer is nil or points to a value; a value of
  interface type is nil or holds a value; \<open>Plain\<close> is a value of a data kind with an
  opaque rendering of its contents; \<open>Wrapped\<close> is a value of a data kind whose type may be
  registered as a custom type, together with what the registered unwrapping yields for it
  (\<open>None\<close> when it yields nil).
\<close>

datatype gval =
    NilPtr tyname
  | PtrTo tyname gval
  | NilIface tyname
  | IfaceOf tyname gval
  | Plain tyname data_kind string
  | Wrapped tyname data_kind "gval option"

text \<open>An \<open>interface{}\<close>: \<open>None\<close> is the nil interface.\<close>

type_synonym iface = "gval option"

text \<open>A \<open>reflect.Value\<close>: the zero Value (not valid, kind \<open>Invalid\<close>) or a valid one.\<close>

datatype rvalue = ZeroValue | Value gval

datatype panic =
    ZeroValueCall          \<comment> \<open>\<open>reflect\<close>: call of \<open>Interface\<close> or \<open>Type\<close> on the zero Value\<close>
  | InterfaceConversion    \<comment> \<open>a failed type assertion \<open>x.(*fieldError)\<close>\<close>
  | NilDereference         \<comment> \<open>a field access through a nil \<open>*fieldError\<close>\<close>
  | NoSuchRecord           \<comment> \<open>an address outside the store; no Go pointer is like that\<close>

fun ValueOf :: "iface \<Rightarrow> rvalue" where
  "ValueOf None = ZeroValue"
| "ValueOf (Some g) = Value g"

fun type_of :: "gval \<Rightarrow> rtype" where
  "type_of (NilPtr ty) = RType ty Ptr"
| "type_of (PtrTo ty g) = RType ty Ptr"
| "type_of (NilIface ty) = RType ty Interface"
| "type_of (IfaceOf ty g) = RType ty Interface"
| "type_of (Plain ty k d) = RType ty (Data k)"
| "type_of (Wrapped ty k u) = RType ty (Data k)"

fun Kind :: "rvalue \<Rightarrow> kind" where
  "Kind ZeroValue = Invalid"
| "Kind (Value g) = (case type_of g of RType ty k \<Rightarrow> k)"

text \<open>\<open>Value.Interface()\<close> and \<open>Value.Type()\<close> panic on the zero Value.\<close>

fun Interface_of :: "rvalue \<Rightarrow> panic + iface" where
  "Interface_of ZeroValue = Inl ZeroValueCall"
| "Interface_of (Value g) = Inr (Some g)"

fun Type_of :: "rvalue \<Rightarrow> panic + rtype" where
  "Type_of ZeroValue = Inl ZeroValueCall"
| "Type_of (Value g) = Inr (type_of g)"

subsection \<open>Error records, the context and the store\<close>

text \<open>
  The struct \<open>fieldError\<close>, with the fields that \<open>struct_level.go\<close> writes. The
  fields \<open>value\<close> and \<open>typ\<close> are an \<open>interface{}\<close> and a \<open>reflect.Type\<close>; left out
  of a composite literal they are nil, here \<open>None\<close>.
\<close>

record fieldError =
  fe_tag :: string
  fe_actualTag :: string
  fe_ns :: string
  fe_structNs :: string
  fe_field :: string
  fe_structField :: string
  fe_value :: iface
  fe_param :: string
  fe_kind :: kind
  fe_typ :: "rtype option"

text \<open>
  An element of \<open>ValidationErrors\<close>, that is a value of the interface \<open>FieldError\<close>:
  a \<open>*fieldError\<close> (nil, or the address of a record in the store), a value of some
  other type that implements the interface, or the nil interface.
\<close>

datatype FieldError =
    FieldErrorPtr "nat option"
  | OtherFieldError string
  | NilFieldError

text \<open>
  Modelled from the spec: the part of \<open>*Validate\<close> that type extraction consults, the
  registry of custom types, here the names of the registered types. The struct is not in
  \<open>struct_level.go\<close>.
\<close>

record Validate =
  customTypes :: "tyname list"

text \<open>
  The context \<open>validate\<close>, with the fields that \<open>struct_level.go\<close> reads and
  writes. \<open>slNs\<close> and \<open>slStructNs\<close> are byte slices; the model keeps their contents.
  \<open>append(v.slNs, x...)\<close> yields a slice with the contents \<open>slNs v @ x\<close> and leaves
  the length and the bytes of \<open>v.slNs\<close> as they are; it may write past that length into
  the array behind the slice, which no read of \<open>v.slNs\<close> sees. The two slices are taken
  to lie in separate arrays, so that building the one namespace does not disturb the other
  before both are converted to strings.
\<close>

record validate =
  validator :: Validate
  topv :: rvalue
  slflParent :: rvalue
  slCurrent :: rvalue
  slNs :: string
  slStructNs :: string
  errs :: "FieldError list"

text \<open>
  The world a call runs in: the store of \<open>fieldError\<close> records, addressed by position,
  and the context. \<open>&fieldError{...}\<close> allocates at the next free address.
\<close>

record world =
  heap :: "fieldError list"
  ctx :: validate

type_synonym outcome = "(panic \<times> world) + world"

text \<open>The world a call leaves behind, whether it returned or panicked.\<close>

fun final :: "outcome \<Rightarrow> world" where
  "final (Inl (p, w)) = w"
| "final (Inr w) = w"

subsection \<open>Accessors\<close>

definition Top :: "validate \<Rightarrow> rvalue" where
  "Top v = topv v"

definition Parent :: "validate \<Rightarrow> rvalue" where
  "Parent v = slflParent v"

definition Current :: "validate \<Rightarrow> rvalue" where
  "Current v = slCurrent v"

definition Validator :: "validate \<Rightarrow> Validate" where
  "Validator v = validator v"

subsection \<open>Type extraction\<close>

text \<open>
  Modelled from the spec: \<open>extractTypeInternal\<close>, which \<open>ExtractType\<close> and
  \<open>ReportError\<close> call and which is not in \<open>struct_level.go\<close>. The spec: it
  dereferences through pointer indirection and through any registered custom type
  unwrapping, and returns the fully dereferenced value, its kind, and whether the original
  value was a pointer or pointer-like before dereferencing; a nil pointer yields kind
  invalid and a zero value.
\<close>

function extractTypeInternal :: "validate \<Rightarrow> rvalue \<Rightarrow> bool \<Rightarrow> rvalue \<times> kind \<times> bool" where
  "extractTypeInternal v ZeroValue nullable = (ZeroValue, Invalid, nullable)"
| "extractTypeInternal v (Value (NilPtr ty)) nullable = (ZeroValue, Invalid, True)"
| "extractTypeInternal v (Value (PtrTo ty g)) nullable = extractTypeInternal v (Value g) True"
| "extractTypeInternal v (Value (NilIface ty)) nullable = (ZeroValue, Invalid, True)"
| "extractTypeInternal v (Value (IfaceOf ty g)) nullable = extractTypeInternal v (Value g) True"
| "extractTypeInternal v (Value (Plain ty k d)) nullable = (Value (Plain ty k d), Data k, nullable)"
| "extractTypeInternal v (Value (Wrapped ty k None)) nullable =
     (if ty \<in> set (customTypes (validator v))
      then extractTypeInternal v ZeroValue nullable
      else (Value (Wrapped ty k None), Data k, nullable))"
| "extractTypeInternal v (Value (Wrapped ty k (Some g))) nullable =
     (if ty \<in> set (customTypes (validator v))
      then extractTypeInternal v (Value g) nullable
      else (Value (Wrapped ty k (Some g)), Data k, nullable))"
  by pat_completeness auto

text \<open>Every step of the dereferencing goes to a proper part of the value.\<close>

termination
  by (relation "measure (\<lambda>(v, x, nullable). case x of ZeroValue \<Rightarrow> 0 | Value g \<Rightarrow> Suc (size g))")
    auto

definition ExtractType :: "validate \<Rightarrow> rvalue \<Rightarrow> rvalue \<times> kind \<times> bool" where
  "ExtractType v field = extractTypeInternal v field False"

subsection \<open>ReportError\<close>

text \<open>\<open>v.errs = append(v.errs, &fieldError{...})\<close>: allocate the record, append its address.\<close>

definition append_new :: "world \<Rightarrow> fieldError \<Rightarrow> world" where
  "append_new w fe =
     w\<lparr>heap := heap w @ [fe],
       ctx := (ctx w)\<lparr>errs := errs (ctx w) @ [FieldErrorPtr (Some (length (heap w)))]\<rparr>\<rparr>"

definition ReportError :: "iface \<Rightarrow> string \<Rightarrow> string \<Rightarrow> string \<Rightarrow> world \<Rightarrow> outcome" where
  "ReportError field fieldName altName tag w =
     (let v = ctx w;
          (fv, kind, nullable) = extractTypeInternal v (ValueOf field) False;
          altName = (if length altName = 0 then fieldName else altName);
          ns = slNs v @ fieldName;
          nsActual = slStructNs v @ altName
      in case kind of
           Invalid \<Rightarrow>
             Inr (append_new w
               \<lparr>fe_tag = tag, fe_actualTag = tag, fe_ns = ns, fe_structNs = nsActual,
                fe_field = fieldName, fe_structField = altName, fe_value = None,
                fe_param = [], fe_kind = kind, fe_typ = None\<rparr>)
         | _ \<Rightarrow>
             (case Interface_of fv of
                Inl p \<Rightarrow> Inl (p, w)
              | Inr val \<Rightarrow>
                  (case Type_of fv of
                     Inl p \<Rightarrow> Inl (p, w)
                   | Inr t \<Rightarrow>
                       Inr (append_new w
                         \<lparr>fe_tag = tag, fe_actualTag = tag, fe_ns = ns, fe_structNs = nsActual,
                          fe_field = fieldName, fe_structField = altName, fe_value = val,
                          fe_param = [], fe_kind = kind, fe_typ = Some t\<rparr>))))"

subsection \<open>ReportValidationErrors\<close>

text \<open>
  The body of the loop rewrites the record behind the pointer: \<open>err.ns\<close> becomes
  \<open>v.slNs\<close>, the record's \<open>ns\<close> and its \<open>field\<close>, and then \<open>err.structNs\<close>
  becomes \<open>v.slStructNs\<close>, the record's \<open>structNs\<close> and its \<open>structField\<close>.
\<close>

definition splice :: "validate \<Rightarrow> fieldError \<Rightarrow> fieldError" where
  "splice v fe =
     (let fe1 = fe\<lparr>fe_ns := (slNs v @ fe_ns fe) @ fe_field fe\<rparr>
      in fe1\<lparr>fe_structNs := (slStructNs v @ fe_structNs fe1) @ fe_structField fe1\<rparr>)"

text \<open>
  One pass through the body of the loop, for the element \<open>e = errs[i]\<close>. The type
  assertion \<open>errs[i].(*fieldError)\<close> panics on anything but a \<open>*fieldError\<close>; the
  field accesses panic on a nil one. Then the record is rewritten in place and the pointer
  is appended to \<open>v.errs\<close>.
\<close>

definition loop_body :: "FieldError \<Rightarrow> world \<Rightarrow> outcome" where
  "loop_body e w =
     (case e of
        FieldErrorPtr None \<Rightarrow> Inl (NilDereference, w)
      | FieldErrorPtr (Some a) \<Rightarrow>
          if a < length (heap w)
          then Inr (w\<lparr>heap := (heap w)[a := splice (ctx w) (heap w ! a)],
                      ctx := (ctx w)\<lparr>errs := errs (ctx w) @ [FieldErrorPtr (Some a)]\<rparr>\<rparr>)
          else Inl (NoSuchRecord, w)
      | OtherFieldError n \<Rightarrow> Inl (InterfaceConversion, w)
      | NilFieldError \<Rightarrow> Inl (InterfaceConversion, w))"

text \<open>
  The loop \<open>for i := 0; i < len(errs); i++\<close> as recursion over the batch, the world
  threaded through; a panic ends it. The two relative namespaces are parameters of the
  source that its body never reads.
\<close>

fun ReportValidationErrors :: "string \<Rightarrow> string \<Rightarrow> FieldError list \<Rightarrow> world \<Rightarrow> outcome" where
  "ReportValidationErrors relativeNamespace relativeActualNamespace [] w = Inr w"
| "ReportValidationErrors relativeNamespace relativeActualNamespace (e # es) w =
     (case loop_body e w of
        Inl pw \<Rightarrow> Inl pw
      | Inr w' \<Rightarrow> ReportValidationErrors relativeNamespace relativeActualNamespace es w')"

subsection \<open>Sequences of calls\<close>

datatype call =
    CallReportError iface string string string
  | CallReportValidationErrors string string "FieldError list"

fun do_call :: "call \<Rightarrow> world \<Rightarrow> outcome" where
  "do_call (CallReportError field fieldName altName tag) w =
     ReportError field fieldName altName tag w"
| "do_call (CallReportValidationErrors relNs relActualNs es) w =
     ReportValidationErrors relNs relActualNs es w"

text \<open>A panic ends the sequence; the world at the panic is what remains.\<close>

fun run :: "call list \<Rightarrow> world \<Rightarrow> outcome" where
  "run [] w = Inr w"
| "run (c # cs) w = (case do_call c w of Inl pw \<Rightarrow> Inl pw | Inr w' \<Rightarrow> run cs w')"

text \<open>The batch that a call merges; \<open>ReportError\<close> merges none.\<close>

fun batch_of :: "call \<Rightarrow> FieldError list" where
  "batch_of (CallReportError field fieldName altName tag) = []"
| "batch_of (CallReportValidationErrors relNs relActualNs es) = es"

subsection \<open>Predicates on inputs\<close>

text \<open>
  An element of a batch that the loop body can process: a \<open>*fieldError\<close> that is not nil
  and addresses a record of the store.
\<close>

fun is_record :: "fieldError list \<Rightarrow> FieldError \<Rightarrow> bool" where
  "is_record h (FieldErrorPtr (Some a)) = (a < length h)"
| "is_record h (FieldErrorPtr None) = False"
| "is_record h (OtherFieldError n) = False"
| "is_record h NilFieldError = False"

text \<open>A nil pointer, or a pointer that reaches one through further pointers.\<close>

fun nil_pointer :: "gval \<Rightarrow> bool" where
  "nil_pointer (NilPtr ty) = True"
| "nil_pointer (PtrTo ty g) = nil_pointer g"
| "nil_pointer (NilIface ty) = False"
| "nil_pointer (IfaceOf ty g) = False"
| "nil_pointer (Plain ty k d) = False"
| "nil_pointer (Wrapped ty k u) = False"

subsection \<open>A concrete run\<close>

text \<open>
  A callback on \<open>Order\<close> has validated \<open>Order.Customer\<close> on its own and holds one
  error for the field \<open>Email\<close>; the context stands at \<open>Order.\<close>.
\<close>

definition ex_record :: fieldError where
  "ex_record =
     \<lparr>fe_tag = ''required'', fe_actualTag = ''required'', fe_ns = [], fe_structNs = [],
      fe_field = ''Email'', fe_structField = ''Email'', fe_value = Some (Plain ''string'' String []),
      fe_param = [], fe_kind = Data String, fe_typ = Some (RType ''string'' (Data String))\<rparr>"

definition ex_ctx :: validate where
  "ex_ctx =
     \<lparr>validator = \<lparr>customTypes = []\<rparr>, topv = ZeroValue, slflParent = ZeroValue,
      slCurrent = ZeroValue, slNs = ''Order.'', slStructNs = ''Order.'', errs = []\<rparr>"

definition ex_world :: world where
  "ex_world = \<lparr>heap = [ex_record], ctx = ex_ctx\<rparr>"

text \<open>The same run after the callback has merged its error once.\<close>

definition ex_merged :: world where
  "ex_merged =
     \<lparr>heap = [ex_record\<lparr>fe_ns := ''Order.Email'', fe_structNs := ''Order.Email''\<rparr>],
      ctx = ex_ctx\<lparr>errs := [FieldErrorPtr (Some 0)]\<rparr>\<rparr>"

section \<open>Properties\<close>

subsection \<open>Type extraction\<close>

text \<open>
  The extracted kind is the kind of the extracted value, and never the kind of a pointer
  or of an interface: the dereferencing is complete.
\<close>

lemma extract_kind:
  "extractTypeInternal v x n = (fv, k, n') \<Longrightarrow> k = Kind fv \<and> k \<noteq> Ptr \<and> k \<noteq> Interface"
  by (induction v x n rule: extractTypeInternal.induct) (auto split: if_splits)

lemma extract_nil_pointer:
  "nil_pointer g \<Longrightarrow> extractTypeInternal v (Value g) n = (ZeroValue, Invalid, True)"
  by (induction g arbitrary: n) auto

lemma Kind_Invalid: "Kind fv = Invalid \<Longrightarrow> fv = ZeroValue"
proof (cases fv)
  case ZeroValue
  then show ?thesis by simp
next
  case (Value g)
  assume "Kind fv = Invalid"
  with Value show ?thesis by (cases g) simp_all
qed

subsection \<open>What \<open>ReportError\<close> does\<close>

text \<open>
  For every input the call returns, with one record allocated and its address appended.
  The branch for a valid kind reads the value, which is valid there.
\<close>

lemma ReportError_result:
  "\<exists>val t. ReportError field fieldName altName tag w =
     Inr (append_new w
       \<lparr>fe_tag = tag, fe_actualTag = tag, fe_ns = slNs (ctx w) @ fieldName,
        fe_structNs = slStructNs (ctx w) @ (if altName = [] then fieldName else altName),
        fe_field = fieldName, fe_structField = (if altName = [] then fieldName else altName),
        fe_value = val, fe_param = [],
        fe_kind = fst (snd (extractTypeInternal (ctx w) (ValueOf field) False)),
        fe_typ = t\<rparr>)
     \<and> (fst (snd (extractTypeInternal (ctx w) (ValueOf field) False)) = Invalid
          \<longrightarrow> val = None \<and> t = None)"
proof -
  obtain fv k n where e: "extractTypeInternal (ctx w) (ValueOf field) False = (fv, k, n)"
    by (cases "extractTypeInternal (ctx w) (ValueOf field) False") auto
  from extract_kind[OF e] show ?thesis
    by (cases fv) (auto simp: ReportError_def e Let_def split: kind.splits)
qed

lemma ReportError_ctx:
  "ctx (final (ReportError field fieldName altName tag w)) =
     (ctx w)\<lparr>errs := errs (ctx w) @ [FieldErrorPtr (Some (length (heap w)))]\<rparr>"
proof -
  obtain fe where "ReportError field fieldName altName tag w = Inr (append_new w fe)"
    using ReportError_result[of field fieldName altName tag w] by blast
  then show ?thesis by (simp add: append_new_def)
qed

lemma ReportError_heap:
  "\<exists>fe. heap (final (ReportError field fieldName altName tag w)) = heap w @ [fe]"
proof -
  obtain fe where "ReportError field fieldName altName tag w = Inr (append_new w fe)"
    using ReportError_result[of field fieldName altName tag w] by blast
  then have "heap (final (ReportError field fieldName altName tag w)) = heap w @ [fe]"
    by (simp add: append_new_def)
  then show ?thesis by blast
qed

subsection \<open>What \<open>ReportValidationErrors\<close> does\<close>

lemma splice_errs [simp]: "splice (v\<lparr>errs := x\<rparr>) = splice v"
  by (rule ext) (simp add: splice_def)

lemma splice_frame: "\<exists>n s. splice v fe = fe\<lparr>fe_ns := n, fe_structNs := s\<rparr>"
proof -
  have "splice v fe = fe\<lparr>fe_ns := (slNs v @ fe_ns fe) @ fe_field fe,
          fe_structNs := (slStructNs v @ fe_structNs fe) @ fe_structField fe\<rparr>"
    by (simp add: splice_def Let_def)
  then show ?thesis by blast
qed

lemma splice_pow_frame: "\<exists>n s. (splice v ^^ k) fe = fe\<lparr>fe_ns := n, fe_structNs := s\<rparr>"
proof (induction k)
  case 0
  have "(splice v ^^ 0) fe = fe\<lparr>fe_ns := fe_ns fe, fe_structNs := fe_structNs fe\<rparr>" by simp
  then show ?case by blast
next
  case (Suc k)
  then obtain n s where k: "(splice v ^^ k) fe = fe\<lparr>fe_ns := n, fe_structNs := s\<rparr>" by blast
  obtain n' s' where "splice v (fe\<lparr>fe_ns := n, fe_structNs := s\<rparr>) =
      fe\<lparr>fe_ns := n, fe_structNs := s\<rparr>\<lparr>fe_ns := n', fe_structNs := s'\<rparr>"
    using splice_frame by blast
  with k have "(splice v ^^ Suc k) fe = fe\<lparr>fe_ns := n', fe_structNs := s'\<rparr>" by simp
  then show ?case by blast
qed

lemma is_record_iff: "is_record h e = (\<exists>a. e = FieldErrorPtr (Some a) \<and> a < length h)"
  by (induction h e rule: is_record.induct) simp_all

lemma is_record_length: "length h' = length h \<Longrightarrow> is_record h' = is_record h"
  by (rule ext) (simp add: is_record_iff)

lemma is_record_update [simp]: "is_record (h[a := r]) e = is_record h e"
  by (induction h e rule: is_record.induct) simp_all

lemma is_record_update_fun [simp]: "is_record (h[a := r]) = is_record h"
  by (rule ext) simp

lemma loop_body_record:
  "is_record (heap w) e \<Longrightarrow>
   \<exists>a. e = FieldErrorPtr (Some a) \<and> a < length (heap w) \<and>
       loop_body e w =
         Inr (w\<lparr>heap := (heap w)[a := splice (ctx w) (heap w ! a)],
                ctx := (ctx w)\<lparr>errs := errs (ctx w) @ [e]\<rparr>\<rparr>)"
  by (cases "(heap w, e)" rule: is_record.cases) (simp_all add: loop_body_def)

lemma loop_body_no_record:
  "\<not> is_record (heap w) e \<Longrightarrow> \<exists>p. loop_body e w = Inl (p, w)"
  by (cases "(heap w, e)" rule: is_record.cases) (simp_all add: loop_body_def)

text \<open>
  The first element of a batch either stops the loop with a panic, the world untouched, or
  is a record that is rewritten and appended before the loop goes on.
\<close>

lemma RVE_Cons_cases:
  obtains (stop) p where "\<not> is_record (heap w) e"
      and "ReportValidationErrors rn rs (e # es) w = Inl (p, w)"
  | (go) a where "is_record (heap w) e" and "e = FieldErrorPtr (Some a)" and "a < length (heap w)"
      and "ReportValidationErrors rn rs (e # es) w =
             ReportValidationErrors rn rs es
               (w\<lparr>heap := (heap w)[a := splice (ctx w) (heap w ! a)],
                  ctx := (ctx w)\<lparr>errs := errs (ctx w) @ [e]\<rparr>\<rparr>)"
proof (cases "is_record (heap w) e")
  case False
  from loop_body_no_record[OF False] obtain p where "loop_body e w = Inl (p, w)" by blast
  then have "ReportValidationErrors rn rs (e # es) w = Inl (p, w)" by simp
  with False show ?thesis by (rule stop)
next
  case True
  from loop_body_record[OF True] obtain a where a: "e = FieldErrorPtr (Some a)" "a < length (heap w)"
    and l: "loop_body e w = Inr (w\<lparr>heap := (heap w)[a := splice (ctx w) (heap w ! a)],
                ctx := (ctx w)\<lparr>errs := errs (ctx w) @ [e]\<rparr>\<rparr>)" by blast
  from l have "ReportValidationErrors rn rs (e # es) w =
             ReportValidationErrors rn rs es
               (w\<lparr>heap := (heap w)[a := splice (ctx w) (heap w ! a)],
                  ctx := (ctx w)\<lparr>errs := errs (ctx w) @ [e]\<rparr>\<rparr>)" by simp
  with True a show ?thesis by (rule go)
qed

lemma RVE_length: "length (heap (final (ReportValidationErrors rn rs es w))) = length (heap w)"
proof (induction es arbitrary: w)
  case Nil
  show ?case by simp
next
  case (Cons e es)
  show ?case
  proof (cases rule: RVE_Cons_cases[of w e rn rs es])
    case (stop p)
    then show ?thesis by simp
  next
    case (go a)
    then show ?thesis by (simp add: Cons.IH)
  qed
qed

text \<open>The loop appends the elements up to the first one that is not a record.\<close>

lemma RVE_ctx:
  "ctx (final (ReportValidationErrors rn rs es w)) =
     (ctx w)\<lparr>errs := errs (ctx w) @ takeWhile (is_record (heap w)) es\<rparr>"
proof (induction es arbitrary: w)
  case Nil
  show ?case by simp
next
  case (Cons e es)
  show ?case
  proof (cases rule: RVE_Cons_cases[of w e rn rs es])
    case (stop p)
    then show ?thesis by simp
  next
    case (go a)
    then show ?thesis by (simp add: Cons.IH)
  qed
qed

lemma RVE_returns:
  "(\<exists>w'. ReportValidationErrors rn rs es w = Inr w') = list_all (is_record (heap w)) es"
proof (induction es arbitrary: w)
  case Nil
  show ?case by simp
next
  case (Cons e es)
  show ?case
  proof (cases rule: RVE_Cons_cases[of w e rn rs es])
    case (stop p)
    then show ?thesis by simp
  next
    case (go a)
    then show ?thesis by (simp add: Cons.IH)
  qed
qed

text \<open>
  A record is rewritten once for each of its occurrences in the part of the batch that
  the loop reaches.
\<close>

lemma RVE_heap:
  "a < length (heap w) \<Longrightarrow>
   heap (final (ReportValidationErrors rn rs es w)) ! a =
     (splice (ctx w) ^^ count_list (takeWhile (is_record (heap w)) es) (FieldErrorPtr (Some a)))
       (heap w ! a)"
proof (induction es arbitrary: w)
  case Nil
  show ?case by simp
next
  case (Cons e es)
  show ?case
  proof (cases rule: RVE_Cons_cases[of w e rn rs es])
    case (stop p)
    then show ?thesis by simp
  next
    case (go b)
    let ?w1 = "w\<lparr>heap := (heap w)[b := splice (ctx w) (heap w ! b)],
                 ctx := (ctx w)\<lparr>errs := errs (ctx w) @ [e]\<rparr>\<rparr>"
    let ?n = "count_list (takeWhile (is_record (heap w)) es) (FieldErrorPtr (Some a))"
    have len: "a < length (heap ?w1)" using Cons.prems by simp
    have h1: "heap ?w1 = (heap w)[b := splice (ctx w) (heap w ! b)]" by simp
    have c1: "splice (ctx ?w1) = splice (ctx w)" by simp
    have "heap (final (ReportValidationErrors rn rs (e # es) w)) ! a =
          heap (final (ReportValidationErrors rn rs es ?w1)) ! a"
      by (simp only: go(4))
    also have "\<dots> = (splice (ctx ?w1) ^^
          count_list (takeWhile (is_record (heap ?w1)) es) (FieldErrorPtr (Some a))) (heap ?w1 ! a)"
      by (rule Cons.IH[OF len])
    also have "\<dots> = (splice (ctx w) ^^ ?n) ((heap w)[b := splice (ctx w) (heap w ! b)] ! a)"
      by (simp only: h1 c1 is_record_update_fun)
    also have "\<dots> = (splice (ctx w) ^^
          count_list (takeWhile (is_record (heap w)) (e # es)) (FieldErrorPtr (Some a))) (heap w ! a)"
    proof (cases "a = b")
      case True
      have "(heap w)[b := splice (ctx w) (heap w ! b)] ! a = splice (ctx w) (heap w ! a)"
        using True go(3) by simp
      moreover have "count_list (takeWhile (is_record (heap w)) (e # es)) (FieldErrorPtr (Some a)) = Suc ?n"
        using True go(1,2) by simp
      ultimately show ?thesis by (simp only: funpow_Suc_right o_apply)
    next
      case False
      have "(heap w)[b := splice (ctx w) (heap w ! b)] ! a = heap w ! a"
        using False by simp
      moreover have "count_list (takeWhile (is_record (heap w)) (e # es)) (FieldErrorPtr (Some a)) = ?n"
        using False go(1,2) by simp
      ultimately show ?thesis by (simp only:)
    qed
    finally show ?thesis .
  qed
qed

lemma RVE_record_frame:
  assumes "a < length (heap w)"
  shows "\<exists>n s. heap (final (ReportValidationErrors rn rs es w)) ! a
              = (heap w ! a)\<lparr>fe_ns := n, fe_structNs := s\<rparr>"
proof -
  let ?k = "count_list (takeWhile (is_record (heap w)) es) (FieldErrorPtr (Some a))"
  have "heap (final (ReportValidationErrors rn rs es w)) ! a = (splice (ctx w) ^^ ?k) (heap w ! a)"
    using assms by (rule RVE_heap)
  with splice_pow_frame[where v = "ctx w" and k = ?k and fe = "heap w ! a"]
  show ?thesis by simp
qed

lemma RVE_record_same:
  assumes "a < length (heap w)" and "FieldErrorPtr (Some a) \<notin> set es"
  shows "heap (final (ReportValidationErrors rn rs es w)) ! a = heap w ! a"
proof -
  let ?k = "count_list (takeWhile (is_record (heap w)) es) (FieldErrorPtr (Some a))"
  have h: "heap (final (ReportValidationErrors rn rs es w)) ! a = (splice (ctx w) ^^ ?k) (heap w ! a)"
    using assms(1) by (rule RVE_heap)
  from assms(2) have "FieldErrorPtr (Some a) \<notin> set (takeWhile (is_record (heap w)) es)"
    by (auto dest: set_takeWhileD)
  then have "?k = 0" by (simp add: count_list_0_iff)
  with h show ?thesis by simp
qed

lemma ReportError_record_same:
  assumes "a < length (heap w)"
  shows "heap (final (ReportError field fieldName altName tag w)) ! a = heap w ! a"
proof -
  obtain fe where "heap (final (ReportError field fieldName altName tag w)) = heap w @ [fe]"
    using ReportError_heap by blast
  with assms show ?thesis by (simp add: nth_append)
qed

lemma RVE_batch:
  assumes "list_all (is_record (heap w)) es"
  shows "\<exists>w'. ReportValidationErrors rn rs es w = Inr w' \<and> errs (ctx w') = errs (ctx w) @ es
               \<and> length (heap w') = length (heap w)"
proof -
  from assms obtain w' where r: "ReportValidationErrors rn rs es w = Inr w'"
    using RVE_returns[of rn rs es w] by blast
  have t: "takeWhile (is_record (heap w)) es = es"
    using assms by (simp add: list_all_iff)
  have "ctx (final (ReportValidationErrors rn rs es w)) = (ctx w)\<lparr>errs := errs (ctx w) @ es\<rparr>"
    using RVE_ctx[of rn rs es w] t by simp
  with r have "errs (ctx w') = errs (ctx w) @ es" by simp
  moreover have "length (heap w') = length (heap w)"
    using RVE_length[of rn rs es w] r by simp
  ultimately show ?thesis using r by blast
qed

lemma run_batches:
  "\<forall>b \<in> set bs. list_all (is_record (heap w)) (snd (snd b)) \<Longrightarrow>
   \<exists>w'. run (map (\<lambda>(rn, rs, es). CallReportValidationErrors rn rs es) bs) w = Inr w'
        \<and> errs (ctx w') = errs (ctx w) @ concat (map (\<lambda>(rn, rs, es). es) bs)"
proof (induction bs arbitrary: w)
  case Nil
  show ?case by simp
next
  case (Cons b bs)
  obtain rn rs es where b: "b = (rn, rs, es)" by (cases b) auto
  from Cons.prems b have "list_all (is_record (heap w)) es" by simp
  from RVE_batch[OF this, of rn rs] obtain w1 where
    w1: "ReportValidationErrors rn rs es w = Inr w1" "errs (ctx w1) = errs (ctx w) @ es"
        "length (heap w1) = length (heap w)" by blast
  have "is_record (heap w1) = is_record (heap w)" using w1(3) by (rule is_record_length)
  with Cons.prems have "\<forall>b \<in> set bs. list_all (is_record (heap w1)) (snd (snd b))" by simp
  from Cons.IH[OF this] obtain w2 where
    w2: "run (map (\<lambda>(rn, rs, es). CallReportValidationErrors rn rs es) bs) w1 = Inr w2"
        "errs (ctx w2) = errs (ctx w1) @ concat (map (\<lambda>(rn, rs, es). es) bs)" by blast
  have "run (map (\<lambda>(rn, rs, es). CallReportValidationErrors rn rs es) (b # bs)) w = Inr w2"
    using b w1(1) w2(1) by simp
  moreover have "errs (ctx w2) = errs (ctx w) @ concat (map (\<lambda>(rn, rs, es). es) (b # bs))"
    using b w1(2) w2(2) by simp
  ultimately show ?case by blast
qed

subsection \<open>Sequences of calls\<close>

lemma do_call_ctx:
  "\<exists>added. ctx (final (do_call c w)) = (ctx w)\<lparr>errs := errs (ctx w) @ added\<rparr>"
proof (cases c)
  case (CallReportError f fn an t)
  then have "ctx (final (do_call c w)) =
      (ctx w)\<lparr>errs := errs (ctx w) @ [FieldErrorPtr (Some (length (heap w)))]\<rparr>"
    by (simp add: ReportError_ctx)
  then show ?thesis by blast
next
  case (CallReportValidationErrors rn rs es)
  then have "ctx (final (do_call c w)) =
      (ctx w)\<lparr>errs := errs (ctx w) @ takeWhile (is_record (heap w)) es\<rparr>"
    by (simp add: RVE_ctx)
  then show ?thesis by blast
qed

lemma run_ctx:
  "\<exists>added. ctx (final (run cs w)) = (ctx w)\<lparr>errs := errs (ctx w) @ added\<rparr>"
proof (induction cs arbitrary: w)
  case Nil
  have "ctx (final (run [] w)) = (ctx w)\<lparr>errs := errs (ctx w) @ []\<rparr>" by simp
  then show ?case by blast
next
  case (Cons c cs)
  obtain a1 where a1: "ctx (final (do_call c w)) = (ctx w)\<lparr>errs := errs (ctx w) @ a1\<rparr>"
    using do_call_ctx by blast
  show ?case
  proof (cases "do_call c w")
    case (Inl pw)
    then have "final (run (c # cs) w) = final (do_call c w)" by simp
    with a1 show ?thesis by metis
  next
    case (Inr w1)
    obtain a2 where a2: "ctx (final (run cs w1)) = (ctx w1)\<lparr>errs := errs (ctx w1) @ a2\<rparr>"
      using Cons.IH by blast
    from Inr a1 have "ctx w1 = (ctx w)\<lparr>errs := errs (ctx w) @ a1\<rparr>" by simp
    with a2 have "ctx (final (run cs w1)) = (ctx w)\<lparr>errs := errs (ctx w) @ (a1 @ a2)\<rparr>" by simp
    moreover from Inr have "final (run (c # cs) w) = final (run cs w1)" by simp
    ultimately show ?thesis by metis
  qed
qed

text \<open>
  A call allocates or leaves the store's size as it is; a record that the call's batch does
  not name is left alone, and any record keeps all its fields but the two namespaces.
\<close>

lemma do_call_length: "length (heap w) \<le> length (heap (final (do_call c w)))"
proof (cases c)
  case (CallReportError f fn an t)
  obtain fe where "heap (final (ReportError f fn an t w)) = heap w @ [fe]"
    using ReportError_heap by blast
  with CallReportError show ?thesis by simp
next
  case (CallReportValidationErrors rn rs es)
  then show ?thesis by (simp add: RVE_length)
qed

lemma do_call_record_same:
  assumes "a < length (heap w)" and "FieldErrorPtr (Some a) \<notin> set (batch_of c)"
  shows "heap (final (do_call c w)) ! a = heap w ! a"
proof (cases c)
  case (CallReportError f fn an t)
  with assms(1) show ?thesis by (simp add: ReportError_record_same)
next
  case (CallReportValidationErrors rn rs es)
  with assms show ?thesis by (simp add: RVE_record_same)
qed

lemma do_call_record_frame:
  assumes "a < length (heap w)"
  shows "\<exists>n s. heap (final (do_call c w)) ! a = (heap w ! a)\<lparr>fe_ns := n, fe_structNs := s\<rparr>"
proof (cases c)
  case (CallReportError f fn an t)
  with assms have "heap (final (do_call c w)) ! a
      = (heap w ! a)\<lparr>fe_ns := fe_ns (heap w ! a), fe_structNs := fe_structNs (heap w ! a)\<rparr>"
    by (simp add: ReportError_record_same)
  then show ?thesis by blast
next
  case (CallReportValidationErrors rn rs es)
  with RVE_record_frame[OF assms, of rn rs es] show ?thesis by simp
qed

lemma run_record_same:
  "a < length (heap w) \<Longrightarrow> \<forall>c \<in> set cs. FieldErrorPtr (Some a) \<notin> set (batch_of c) \<Longrightarrow>
   heap (final (run cs w)) ! a = heap w ! a"
proof (induction cs arbitrary: w)
  case Nil
  show ?case by simp
next
  case (Cons c cs)
  have s: "heap (final (do_call c w)) ! a = heap w ! a"
    using Cons.prems by (simp add: do_call_record_same)
  show ?case
  proof (cases "do_call c w")
    case (Inl pw)
    with s show ?thesis by simp
  next
    case (Inr w1)
    have "length (heap w) \<le> length (heap w1)" using do_call_length[of w c] Inr by simp
    with Cons.prems have "a < length (heap w1)" by simp
    with Cons.IH[of w1] Cons.prems have "heap (final (run cs w1)) ! a = heap w1 ! a" by simp
    with s Inr show ?thesis by simp
  qed
qed

lemma run_record_frame:
  "a < length (heap w) \<Longrightarrow>
   \<exists>n s. heap (final (run cs w)) ! a = (heap w ! a)\<lparr>fe_ns := n, fe_structNs := s\<rparr>"
proof (induction cs arbitrary: w)
  case Nil
  have "heap (final (run [] w)) ! a
      = (heap w ! a)\<lparr>fe_ns := fe_ns (heap w ! a), fe_structNs := fe_structNs (heap w ! a)\<rparr>"
    by simp
  then show ?case by blast
next
  case (Cons c cs)
  obtain n s where s: "heap (final (do_call c w)) ! a = (heap w ! a)\<lparr>fe_ns := n, fe_structNs := s\<rparr>"
    using do_call_record_frame[OF Cons.prems] by blast
  show ?case
  proof (cases "do_call c w")
    case (Inl pw)
    with s have "heap (final (run (c # cs) w)) ! a = (heap w ! a)\<lparr>fe_ns := n, fe_structNs := s\<rparr>"
      by simp
    then show ?thesis by blast
  next
    case (Inr w1)
    have "length (heap w) \<le> length (heap w1)" using do_call_length[of w c] Inr by simp
    with Cons.prems have "a < length (heap w1)" by simp
    from Cons.IH[OF this] obtain n' s' where
      "heap (final (run cs w1)) ! a = (heap w1 ! a)\<lparr>fe_ns := n', fe_structNs := s'\<rparr>" by blast
    with s Inr have "heap (final (run (c # cs) w)) ! a
        = (heap w ! a)\<lparr>fe_ns := n', fe_structNs := s'\<rparr>" by simp
    then show ?thesis by blast
  qed
qed

section \<open>The claims\<close>

subsection \<open>C1: the namespaces that \<open>ReportValidationErrors\<close> writes\<close>

text \<open>
  Claim C1 says that the final display namespace of a merged error is the context's
  namespace, then \<open>relativeNamespace\<close>, then the error's own namespace, then its own
  field, and likewise for the struct namespace with \<open>relativeActualNamespace\<close>. The
  source takes both relative namespaces and reads neither. With the context at
  \<open>Order.\<close>, the relative namespaces \<open>Customer.\<close> and one error for the field
  \<open>Email\<close>, the call writes \<open>Order.Email\<close>, where the claim and the comments of the
  source say \<open>Order.Customer.Email\<close>.
\<close>

theorem ReportValidationErrors_drops_relative_namespace:
  "ReportValidationErrors ''Customer.'' ''Customer.'' [FieldErrorPtr (Some 0)] ex_world =
     Inr \<lparr>heap = [ex_record\<lparr>fe_ns := ''Order.Email'', fe_structNs := ''Order.Email''\<rparr>],
          ctx = ex_ctx\<lparr>errs := [FieldErrorPtr (Some 0)]\<rparr>\<rparr>"
  by (simp add: ex_world_def ex_ctx_def ex_record_def loop_body_def splice_def)

subsection \<open>C2: \<open>ReportError\<close> appends one error\<close>

text \<open>
  The context keeps the current display namespace together with the separator that ends
  it: nothing at the root, \<open>User.\<close> inside \<open>User\<close>. The callback passes the bare
  field name, such as \<open>FirstName\<close> or \<open>Names[0]\<close>.

  Claim C2: every call of \<open>ReportError\<close> returns and appends exactly one error, a new
  record. When the context stands inside the namespace \<open>cur\<close>, the error's namespace
  is \<open>cur\<close>, a dot and \<open>fieldName\<close>; when the context's namespace is empty, it is
  \<open>fieldName\<close> alone. In both cases it is the bytes of \<open>slNs\<close> followed by
  \<open>fieldName\<close>. The error's field, tag and actual tag are the ones passed, and its
  parameter is empty.
\<close>

theorem ReportError_appends_one:
  "\<exists>fe. ReportError field fieldName altName tag w =
          Inr (w\<lparr>heap := heap w @ [fe],
                 ctx := (ctx w)\<lparr>errs := errs (ctx w) @ [FieldErrorPtr (Some (length (heap w)))]\<rparr>\<rparr>)
        \<and> (slNs (ctx w) = cur @ ''.'' \<longrightarrow> fe_ns fe = cur @ ''.'' @ fieldName)
        \<and> (slNs (ctx w) = [] \<longrightarrow> fe_ns fe = fieldName)
        \<and> fe_ns fe = slNs (ctx w) @ fieldName
        \<and> fe_field fe = fieldName \<and> fe_tag fe = tag \<and> fe_actualTag fe = tag \<and> fe_param fe = []"
proof -
  obtain val t where "ReportError field fieldName altName tag w =
     Inr (append_new w
       \<lparr>fe_tag = tag, fe_actualTag = tag, fe_ns = slNs (ctx w) @ fieldName,
        fe_structNs = slStructNs (ctx w) @ (if altName = [] then fieldName else altName),
        fe_field = fieldName, fe_structField = (if altName = [] then fieldName else altName),
        fe_value = val, fe_param = [],
        fe_kind = fst (snd (extractTypeInternal (ctx w) (ValueOf field) False)),
        fe_typ = t\<rparr>)"
    using ReportError_result[of field fieldName altName tag w] by blast
  then show ?thesis unfolding append_new_def
    by (intro exI conjI) (assumption, simp_all)
qed

text \<open>
  Both hypotheses are met in the concrete run: inside \<open>Order\<close> the field \<open>Name\<close>
  is reported as \<open>Order.Name\<close>, and at the root as \<open>Name\<close>.
\<close>

theorem ReportError_appends_one_witness:
  "slNs (ctx ex_world) = ''Order'' @ ''.''
   \<and> (\<exists>fe. ReportError None ''Name'' ''Name'' ''required'' ex_world =
          Inr (ex_world\<lparr>heap := heap ex_world @ [fe],
                 ctx := (ctx ex_world)\<lparr>errs := errs (ctx ex_world)
                          @ [FieldErrorPtr (Some (length (heap ex_world)))]\<rparr>\<rparr>)
        \<and> fe_ns fe = ''Order'' @ ''.'' @ ''Name'')
   \<and> slNs (ctx (ex_world\<lparr>ctx := ex_ctx\<lparr>slNs := [], slStructNs := []\<rparr>\<rparr>)) = []
   \<and> (\<exists>fe. ReportError None ''Name'' ''Name'' ''required'' (ex_world\<lparr>ctx := ex_ctx\<lparr>slNs := [], slStructNs := []\<rparr>\<rparr>) =
          Inr ((ex_world\<lparr>ctx := ex_ctx\<lparr>slNs := [], slStructNs := []\<rparr>\<rparr>)
                \<lparr>heap := heap (ex_world\<lparr>ctx := ex_ctx\<lparr>slNs := [], slStructNs := []\<rparr>\<rparr>) @ [fe],
                 ctx := (ctx (ex_world\<lparr>ctx := ex_ctx\<lparr>slNs := [], slStructNs := []\<rparr>\<rparr>))
                          \<lparr>errs := errs (ctx (ex_world\<lparr>ctx := ex_ctx\<lparr>slNs := [], slStructNs := []\<rparr>\<rparr>))
                          @ [FieldErrorPtr (Some (length (heap (ex_world\<lparr>ctx := ex_ctx\<lparr>slNs := [], slStructNs := []\<rparr>\<rparr>))))]\<rparr>\<rparr>)
        \<and> fe_ns fe = ''Name'')"
proof -
  have h1: "slNs (ctx ex_world) = ''Order'' @ ''.''"
    by (simp add: ex_world_def ex_ctx_def)
  have h2: "slNs (ctx (ex_world\<lparr>ctx := ex_ctx\<lparr>slNs := [], slStructNs := []\<rparr>\<rparr>)) = []"
    by simp
  show ?thesis
    using h1 h2
      ReportError_appends_one[where w = ex_world and cur = "''Order''" and field = None
        and fieldName = "''Name''" and altName = "''Name''" and tag = "''required''"]
      ReportError_appends_one[where w = "ex_world\<lparr>ctx := ex_ctx\<lparr>slNs := [], slStructNs := []\<rparr>\<rparr>" and cur = "[]"
        and field = None and fieldName = "''Name''" and altName = "''Name''" and tag = "''required''"]
    by blast
qed

subsection \<open>C3: \<open>ReportValidationErrors\<close> appends the batch in order\<close>

text \<open>
  Claim C3 as stated speaks of every batch. A batch may hold any value of the interface
  \<open>FieldError\<close>; on one that is not a \<open>*fieldError\<close> the type assertion panics, and
  of a batch of length one nothing is appended.
\<close>

theorem ReportValidationErrors_foreign_counterexample:
  "ReportValidationErrors [] [] [OtherFieldError ''custom''] ex_world =
     Inl (InterfaceConversion, ex_world)
   \<and> length (errs (ctx (final (ReportValidationErrors [] [] [OtherFieldError ''custom''] ex_world))))
       \<noteq> length (errs (ctx ex_world)) + length [OtherFieldError ''custom'']"
  by (simp add: loop_body_def)

text \<open>
  Claim C3 as amended: when every element of the batch is a \<open>*fieldError\<close> that points
  to a record, the call returns and the error collection afterwards is the collection
  before followed by the batch, element for element; and a sequence of such calls returns
  with the collection followed by the batches one after the other, in the order of the
  calls.
\<close>

theorem ReportValidationErrors_appends_batch:
  "(list_all (is_record (heap w)) es \<longrightarrow>
      (\<exists>w'. ReportValidationErrors relativeNamespace relativeActualNamespace es w = Inr w'
          \<and> errs (ctx w') = errs (ctx w) @ es))
   \<and> ((\<forall>b \<in> set bs. list_all (is_record (heap w)) (snd (snd b))) \<longrightarrow>
      (\<exists>w'. run (map (\<lambda>(rn, rs, es). CallReportValidationErrors rn rs es) bs) w = Inr w'
          \<and> errs (ctx w') = errs (ctx w) @ concat (map (\<lambda>(rn, rs, es). es) bs)))"
proof (intro conjI impI)
  assume "list_all (is_record (heap w)) es"
  from RVE_batch[OF this]
  show "\<exists>w'. ReportValidationErrors relativeNamespace relativeActualNamespace es w = Inr w'
          \<and> errs (ctx w') = errs (ctx w) @ es" by blast
next
  assume "\<forall>b \<in> set bs. list_all (is_record (heap w)) (snd (snd b))"
  then show "\<exists>w'. run (map (\<lambda>(rn, rs, es). CallReportValidationErrors rn rs es) bs) w = Inr w'
          \<and> errs (ctx w') = errs (ctx w) @ concat (map (\<lambda>(rn, rs, es). es) bs)"
    by (rule run_batches)
qed

text \<open>
  The hypotheses hold for the one record of the concrete run, merged once and then twice
  more by a second call.
\<close>

theorem ReportValidationErrors_appends_batch_witness:
  "list_all (is_record (heap ex_world)) [FieldErrorPtr (Some 0)]
   \<and> list_all (is_record (heap ex_world)) [FieldErrorPtr (Some 0), FieldErrorPtr (Some 0)]
   \<and> (\<exists>w'. ReportValidationErrors [] [] [FieldErrorPtr (Some 0)] ex_world = Inr w'
          \<and> errs (ctx w') = errs (ctx ex_world) @ [FieldErrorPtr (Some 0)])
   \<and> (\<exists>w'. run [CallReportValidationErrors [] [] [FieldErrorPtr (Some 0)],
                 CallReportValidationErrors ''a.'' ''b.'' [FieldErrorPtr (Some 0), FieldErrorPtr (Some 0)]]
              ex_world = Inr w'
          \<and> errs (ctx w') = errs (ctx ex_world)
               @ [FieldErrorPtr (Some 0), FieldErrorPtr (Some 0), FieldErrorPtr (Some 0)])"
proof -
  have h1: "list_all (is_record (heap ex_world)) [FieldErrorPtr (Some 0)]"
    by (simp add: ex_world_def)
  have h2: "\<forall>b \<in> set [([], [], [FieldErrorPtr (Some 0)]), (''a.'', ''b.'', [FieldErrorPtr (Some 0), FieldErrorPtr (Some 0)])].
         list_all (is_record (heap ex_world)) (snd (snd b))"
    by (simp add: ex_world_def)
  show ?thesis
    using h1 h2
      ReportValidationErrors_appends_batch[where w = ex_world and es = "[FieldErrorPtr (Some 0)]"
        and bs = "[([], [], [FieldErrorPtr (Some 0)]), (''a.'', ''b.'', [FieldErrorPtr (Some 0), FieldErrorPtr (Some 0)])]"
        and relativeNamespace = "[]" and relativeActualNamespace = "[]"]
    by simp
qed

subsection \<open>C4: \<open>ReportError\<close> on a value of invalid kind\<close>

text \<open>
  Claim C4: when the extracted kind of the value passed to \<open>ReportError\<close> is invalid,
  the appended error has kind invalid and its value and type are left unset; the
  extracted value is one on which \<open>Interface\<close> and \<open>Type\<close> would panic, and the call
  returns all the same, so neither was called on it; and the call returns for every input
  whatever.
\<close>

theorem ReportError_invalid_kind:
  "(fst (snd (extractTypeInternal (ctx w) (ValueOf field) False)) = Invalid \<longrightarrow>
      (\<exists>fe. ReportError field fieldName altName tag w = Inr (append_new w fe)
          \<and> fe_kind fe = Invalid \<and> fe_value fe = None \<and> fe_typ fe = None)
      \<and> Interface_of (fst (extractTypeInternal (ctx w) (ValueOf field) False)) = Inl ZeroValueCall
      \<and> Type_of (fst (extractTypeInternal (ctx w) (ValueOf field) False)) = Inl ZeroValueCall)
   \<and> (\<exists>w'. ReportError field fieldName altName tag w = Inr w')"
proof -
  obtain val t where r: "ReportError field fieldName altName tag w =
     Inr (append_new w
       \<lparr>fe_tag = tag, fe_actualTag = tag, fe_ns = slNs (ctx w) @ fieldName,
        fe_structNs = slStructNs (ctx w) @ (if altName = [] then fieldName else altName),
        fe_field = fieldName, fe_structField = (if altName = [] then fieldName else altName),
        fe_value = val, fe_param = [],
        fe_kind = fst (snd (extractTypeInternal (ctx w) (ValueOf field) False)),
        fe_typ = t\<rparr>)"
    and i: "fst (snd (extractTypeInternal (ctx w) (ValueOf field) False)) = Invalid
          \<longrightarrow> val = None \<and> t = None"
    using ReportError_result[of field fieldName altName tag w] by blast
  obtain fv k n where e: "extractTypeInternal (ctx w) (ValueOf field) False = (fv, k, n)"
    by (cases "extractTypeInternal (ctx w) (ValueOf field) False") auto
  have z: "k = Invalid \<longrightarrow> fv = ZeroValue"
    using extract_kind[OF e] Kind_Invalid[of fv] by simp
  show ?thesis
  proof (intro conjI impI)
    assume inv: "fst (snd (extractTypeInternal (ctx w) (ValueOf field) False)) = Invalid"
    with i have "val = None" "t = None" by simp_all
    with r inv show "\<exists>fe. ReportError field fieldName altName tag w = Inr (append_new w fe)
          \<and> fe_kind fe = Invalid \<and> fe_value fe = None \<and> fe_typ fe = None"
      by (intro exI conjI) (assumption, simp_all)
    from inv e z have "fv = ZeroValue" by simp
    with e show "Interface_of (fst (extractTypeInternal (ctx w) (ValueOf field) False)) = Inl ZeroValueCall"
      and "Type_of (fst (extractTypeInternal (ctx w) (ValueOf field) False)) = Inl ZeroValueCall"
      by simp_all
  next
    from r show "\<exists>w'. ReportError field fieldName altName tag w = Inr w'" by blast
  qed
qed

text \<open>A pointer to a nil pointer is such an input.\<close>

theorem ReportError_invalid_kind_witness:
  "fst (snd (extractTypeInternal (ctx ex_world) (ValueOf (Some (PtrTo ''**int'' (NilPtr ''*int'')))) False))
     = Invalid
   \<and> (\<exists>fe. ReportError (Some (PtrTo ''**int'' (NilPtr ''*int''))) ''Age'' [] ''gte'' ex_world
             = Inr (append_new ex_world fe)
          \<and> fe_kind fe = Invalid \<and> fe_value fe = None \<and> fe_typ fe = None)"
proof -
  have h: "fst (snd (extractTypeInternal (ctx ex_world)
             (ValueOf (Some (PtrTo ''**int'' (NilPtr ''*int'')))) False)) = Invalid"
    by simp
  show ?thesis
    using h ReportError_invalid_kind[where w = ex_world
        and field = "Some (PtrTo ''**int'' (NilPtr ''*int''))"
        and fieldName = "''Age''" and altName = "[]" and tag = "''gte''"]
    by blast
qed

subsection \<open>C5: \<open>ExtractType\<close> on nil pointers\<close>

text \<open>
  Claim C5: for a nil pointer, also one reached through several pointers,
  \<open>ExtractType\<close> returns the zero value, the kind invalid and nullable true; and for
  every reflected value whatever it returns a value together with that value's kind, which
  is never the kind of a pointer or of an interface. The function is defined by a
  recursion that terminates on every input and has no failing branch.
\<close>

theorem ExtractType_nil_pointer:
  "(nil_pointer g \<longrightarrow> ExtractType v (Value g) = (ZeroValue, Invalid, True))
   \<and> (\<exists>fv k nullable. ExtractType v x = (fv, k, nullable)
         \<and> k = Kind fv \<and> k \<noteq> Ptr \<and> k \<noteq> Interface)"
proof (intro conjI impI)
  assume "nil_pointer g"
  then show "ExtractType v (Value g) = (ZeroValue, Invalid, True)"
    unfolding ExtractType_def by (rule extract_nil_pointer)
next
  obtain fv k n where e: "extractTypeInternal v x False = (fv, k, n)"
    by (cases "extractTypeInternal v x False") auto
  from extract_kind[OF e] e
  show "\<exists>fv k nullable. ExtractType v x = (fv, k, nullable)
         \<and> k = Kind fv \<and> k \<noteq> Ptr \<and> k \<noteq> Interface"
    unfolding ExtractType_def by blast
qed

theorem ExtractType_nil_pointer_witness:
  "nil_pointer (PtrTo ''**int'' (NilPtr ''*int''))
   \<and> ExtractType ex_ctx (Value (PtrTo ''**int'' (NilPtr ''*int''))) = (ZeroValue, Invalid, True)"
proof -
  have h: "nil_pointer (PtrTo ''**int'' (NilPtr ''*int''))" by simp
  show ?thesis
    using h ExtractType_nil_pointer[where g = "PtrTo ''**int'' (NilPtr ''*int'')" and v = ex_ctx]
    by blast
qed

subsection \<open>C6: what merging does to a record\<close>

text \<open>
  Claim C6 as stated says that each record of the batch is rewritten exactly once. The
  batch holds pointers, and the loop rewrites the record behind each of them as it comes:
  a record that the batch names twice is rewritten twice, and ends up different from the
  record rewritten once.
\<close>

theorem ReportValidationErrors_rewrites_twice_counterexample:
  "ReportValidationErrors [] [] [FieldErrorPtr (Some 0), FieldErrorPtr (Some 0)] ex_world =
     Inr \<lparr>heap = [ex_record\<lparr>fe_ns := ''Order.Order.EmailEmail'',
                              fe_structNs := ''Order.Order.EmailEmail''\<rparr>],
          ctx = ex_ctx\<lparr>errs := [FieldErrorPtr (Some 0), FieldErrorPtr (Some 0)]\<rparr>\<rparr>
   \<and> splice ex_ctx ex_record
       = ex_record\<lparr>fe_ns := ''Order.Email'', fe_structNs := ''Order.Email''\<rparr>
   \<and> ex_record\<lparr>fe_ns := ''Order.Order.EmailEmail'', fe_structNs := ''Order.Order.EmailEmail''\<rparr>
       \<noteq> splice ex_ctx ex_record"
  by (simp add: ex_world_def ex_ctx_def ex_record_def loop_body_def splice_def)

text \<open>
  Claim C6 as amended, for a record of the store. Whatever the batch, the record after
  the call is the record before with the rewrite of the loop body applied once for each
  occurrence of its pointer in the part of the batch that the loop reaches; when the call
  returns that part is the whole batch, so the rewrite is applied exactly as many times as
  the batch names the record: not at all when it does not, once when it names it once,
  twice when it names it twice. However often it is applied, the record differs from the
  record before in its namespace and struct namespace at most, so its field, struct field,
  tag, actual tag, kind, value, type and parameter are unchanged. A call of
  \<open>ReportError\<close> leaves every record of the store as it is.
\<close>

theorem ReportValidationErrors_record_frame:
  "a < length (heap w) \<longrightarrow>
     heap (final (ReportValidationErrors relativeNamespace relativeActualNamespace es w)) ! a
       = (splice (ctx w) ^^
            count_list (takeWhile (is_record (heap w)) es) (FieldErrorPtr (Some a))) (heap w ! a)
   \<and> (ReportValidationErrors relativeNamespace relativeActualNamespace es w = Inr w'
        \<longrightarrow> heap w' ! a
              = (splice (ctx w) ^^ count_list es (FieldErrorPtr (Some a))) (heap w ! a))
   \<and> (\<exists>n s. heap (final (ReportValidationErrors relativeNamespace relativeActualNamespace es w)) ! a
              = (heap w ! a)\<lparr>fe_ns := n, fe_structNs := s\<rparr>)
   \<and> heap (final (ReportError field fieldName altName tag w)) ! a = heap w ! a"
proof (intro impI conjI)
  assume a: "a < length (heap w)"
  let ?k = "count_list (takeWhile (is_record (heap w)) es) (FieldErrorPtr (Some a))"
  show h: "heap (final (ReportValidationErrors relativeNamespace relativeActualNamespace es w)) ! a
        = (splice (ctx w) ^^ ?k) (heap w ! a)"
    using a by (rule RVE_heap)
  {
    assume r: "ReportValidationErrors relativeNamespace relativeActualNamespace es w = Inr w'"
    then have "list_all (is_record (heap w)) es"
      using RVE_returns[of relativeNamespace relativeActualNamespace es w] by blast
    then have tw: "takeWhile (is_record (heap w)) es = es" by (simp add: list_all_iff)
    have "?k = count_list es (FieldErrorPtr (Some a))" by (simp only: tw)
    with h r show "heap w' ! a
        = (splice (ctx w) ^^ count_list es (FieldErrorPtr (Some a))) (heap w ! a)" by simp
  }
  show "\<exists>n s. heap (final (ReportValidationErrors relativeNamespace relativeActualNamespace es w)) ! a
              = (heap w ! a)\<lparr>fe_ns := n, fe_structNs := s\<rparr>"
    using a by (rule RVE_record_frame)
  show "heap (final (ReportError field fieldName altName tag w)) ! a = heap w ! a"
    using a by (rule ReportError_record_same)
qed

text \<open>
  In the concrete run the batch names the record twice, the call returns, and the record is
  the one rewritten twice.
\<close>

theorem ReportValidationErrors_record_frame_witness:
  "0 < length (heap ex_world)
   \<and> ReportValidationErrors [] [] [FieldErrorPtr (Some 0), FieldErrorPtr (Some 0)] ex_world
       = Inr \<lparr>heap = [splice ex_ctx (splice ex_ctx ex_record)],
              ctx = ex_ctx\<lparr>errs := [FieldErrorPtr (Some 0), FieldErrorPtr (Some 0)]\<rparr>\<rparr>
   \<and> count_list [FieldErrorPtr (Some 0), FieldErrorPtr (Some 0)] (FieldErrorPtr (Some 0)) = 2
   \<and> heap \<lparr>heap = [splice ex_ctx (splice ex_ctx ex_record)],
              ctx = ex_ctx\<lparr>errs := [FieldErrorPtr (Some 0), FieldErrorPtr (Some 0)]\<rparr>\<rparr> ! 0
       = (splice (ctx ex_world) ^^
            count_list [FieldErrorPtr (Some 0), FieldErrorPtr (Some 0)] (FieldErrorPtr (Some 0)))
           (heap ex_world ! 0)
   \<and> heap (final (ReportError None ''Name'' [] ''required'' ex_world)) ! 0 = heap ex_world ! 0"
proof -
  have h1: "0 < length (heap ex_world)" by (simp add: ex_world_def)
  have h2: "ReportValidationErrors [] [] [FieldErrorPtr (Some 0), FieldErrorPtr (Some 0)] ex_world
       = Inr \<lparr>heap = [splice ex_ctx (splice ex_ctx ex_record)],
              ctx = ex_ctx\<lparr>errs := [FieldErrorPtr (Some 0), FieldErrorPtr (Some 0)]\<rparr>\<rparr>"
    by (simp add: ex_world_def ex_ctx_def loop_body_def splice_def)
  have h3: "count_list [FieldErrorPtr (Some 0), FieldErrorPtr (Some 0)] (FieldErrorPtr (Some 0)) = 2"
    by simp
  show ?thesis
    using h1 h2 h3
      ReportValidationErrors_record_frame[where a = 0 and w = ex_world
        and es = "[FieldErrorPtr (Some 0), FieldErrorPtr (Some 0)]" and relativeNamespace = "[]"
        and relativeActualNamespace = "[]" and field = None and fieldName = "''Name''"
        and altName = "[]" and tag = "''required''"
        and w' = "\<lparr>heap = [splice ex_ctx (splice ex_ctx ex_record)],
              ctx = ex_ctx\<lparr>errs := [FieldErrorPtr (Some 0), FieldErrorPtr (Some 0)]\<rparr>\<rparr>"]
    by blast
qed

subsection \<open>C7: the error collection only grows\<close>

text \<open>
  Claim C7 as stated says that no call overwrites an entry already in the collection. The
  entries are pointers, and \<open>ReportValidationErrors\<close> rewrites the record behind each
  pointer of its batch: when the batch holds a pointer that the collection already holds,
  the error already collected changes. After the callback has merged its error once, the
  collection holds it with the namespace \<open>Order.Email\<close>; merging the same error again
  leaves the collection with two entries, both reading \<open>Order.Order.EmailEmail\<close>.
\<close>

theorem collected_record_rewritten_counterexample:
  "ReportValidationErrors [] [] [FieldErrorPtr (Some 0)] ex_world = Inr ex_merged
   \<and> errs (ctx ex_merged) = [FieldErrorPtr (Some 0)]
   \<and> fe_ns (heap ex_merged ! 0) = ''Order.Email''
   \<and> errs (ctx (final (ReportValidationErrors [] [] [FieldErrorPtr (Some 0)] ex_merged)))
       = [FieldErrorPtr (Some 0), FieldErrorPtr (Some 0)]
   \<and> fe_ns (heap (final (ReportValidationErrors [] [] [FieldErrorPtr (Some 0)] ex_merged)) ! 0)
       = ''Order.Order.EmailEmail''"
  by (simp add: ex_merged_def ex_world_def ex_ctx_def ex_record_def loop_body_def splice_def)

text \<open>
  Claim C7 as amended. After any sequence of calls of \<open>ReportError\<close> and
  \<open>ReportValidationErrors\<close>, also one that a panic ends, the error collection of the
  context begins with the collection as it was before the sequence: entries are appended,
  and none is removed, moved or replaced. A record that was in the store before the
  sequence, and so every record behind an entry collected before, is as it was when no
  batch of the sequence holds its pointer; and whatever the batches hold, it differs from
  what it was in its namespace and struct namespace at most.
\<close>

theorem errs_only_grows:
  "prefix (errs (ctx w)) (errs (ctx (final (run cs w))))
   \<and> (a < length (heap w) \<longrightarrow>
        (\<exists>n s. heap (final (run cs w)) ! a = (heap w ! a)\<lparr>fe_ns := n, fe_structNs := s\<rparr>)
        \<and> ((\<forall>c \<in> set cs. FieldErrorPtr (Some a) \<notin> set (batch_of c))
             \<longrightarrow> heap (final (run cs w)) ! a = heap w ! a))"
proof (intro conjI impI)
  obtain added where "ctx (final (run cs w)) = (ctx w)\<lparr>errs := errs (ctx w) @ added\<rparr>"
    using run_ctx by blast
  then show "prefix (errs (ctx w)) (errs (ctx (final (run cs w))))" by simp
next
  assume "a < length (heap w)"
  then show "\<exists>n s. heap (final (run cs w)) ! a = (heap w ! a)\<lparr>fe_ns := n, fe_structNs := s\<rparr>"
    by (rule run_record_frame)
next
  assume "a < length (heap w)" and "\<forall>c \<in> set cs. FieldErrorPtr (Some a) \<notin> set (batch_of c)"
  then show "heap (final (run cs w)) ! a = heap w ! a"
    by (rule run_record_same)
qed

text \<open>
  After the first merge, a call of \<open>ReportError\<close> and a merge of the record that this
  call allocated leave the error collected first as it was.
\<close>

theorem errs_only_grows_witness:
  "0 < length (heap ex_merged)
   \<and> FieldErrorPtr (Some 0) \<notin> set (batch_of (CallReportError None ''Name'' [] ''required''))
   \<and> FieldErrorPtr (Some 0) \<notin> set (batch_of (CallReportValidationErrors [] [] [FieldErrorPtr (Some 1)]))
   \<and> prefix (errs (ctx ex_merged))
        (errs (ctx (final (run [CallReportError None ''Name'' [] ''required'',
                                CallReportValidationErrors [] [] [FieldErrorPtr (Some 1)]] ex_merged))))
   \<and> heap (final (run [CallReportError None ''Name'' [] ''required'',
                         CallReportValidationErrors [] [] [FieldErrorPtr (Some 1)]] ex_merged)) ! 0
       = heap ex_merged ! 0"
proof -
  have h1: "0 < length (heap ex_merged)" by (simp add: ex_merged_def)
  have h2: "\<forall>c \<in> set [CallReportError None ''Name'' [] ''required'',
                        CallReportValidationErrors [] [] [FieldErrorPtr (Some 1)]].
              FieldErrorPtr (Some 0) \<notin> set (batch_of c)"
    by simp
  have h3: "FieldErrorPtr (Some 0) \<notin> set (batch_of (CallReportError None ''Name'' [] ''required''))"
    and h4: "FieldErrorPtr (Some 0) \<notin> set (batch_of (CallReportValidationErrors [] [] [FieldErrorPtr (Some 1)]))"
    by simp_all
  show ?thesis
    using h1 h2 h3 h4
      errs_only_grows[where w = ex_merged and a = 0
        and cs = "[CallReportError None ''Name'' [] ''required'',
                   CallReportValidationErrors [] [] [FieldErrorPtr (Some 1)]]"]
    by blast
qed

subsection \<open>C8: an empty \<open>altName\<close>\<close>

text \<open>
  Claim C8: a call of \<open>ReportError\<close> with the empty \<open>altName\<close> does what the call
  with \<open>fieldName\<close> in its place does: the appended error has \<open>fieldName\<close> as its
  struct field, and its struct namespace is the context's actual namespace followed by
  \<open>fieldName\<close>.
\<close>

theorem ReportError_empty_altName:
  "ReportError field fieldName [] tag w = ReportError field fieldName fieldName tag w
   \<and> (\<exists>fe. ReportError field fieldName [] tag w = Inr (append_new w fe)
         \<and> fe_structField fe = fieldName
         \<and> fe_structNs fe = slStructNs (ctx w) @ fieldName)"
proof
  show "ReportError field fieldName [] tag w = ReportError field fieldName fieldName tag w"
    by (simp add: ReportError_def Let_def)
  obtain val t where "ReportError field fieldName [] tag w =
     Inr (append_new w
       \<lparr>fe_tag = tag, fe_actualTag = tag, fe_ns = slNs (ctx w) @ fieldName,
        fe_structNs = slStructNs (ctx w) @ (if [] = ([]::string) then fieldName else []),
        fe_field = fieldName, fe_structField = (if [] = ([]::string) then fieldName else []),
        fe_value = val, fe_param = [],
        fe_kind = fst (snd (extractTypeInternal (ctx w) (ValueOf field) False)),
        fe_typ = t\<rparr>)"
    using ReportError_result[of field fieldName "[]" tag w] by blast
  then show "\<exists>fe. ReportError field fieldName [] tag w = Inr (append_new w fe)
         \<and> fe_structField fe = fieldName
         \<and> fe_structNs fe = slStructNs (ctx w) @ fieldName"
    by (intro exI conjI) (assumption, simp_all)
qed

subsection \<open>C9: the context keeps its position\<close>

text \<open>
  Claim C9: after a call of \<open>ReportError\<close> or of \<open>ReportValidationErrors\<close>,
  returned or panicked, the context is the context before with its error collection
  extended and nothing else changed: the display namespace, the actual namespace, and
  what \<open>Top\<close>, \<open>Parent\<close>, \<open>Current\<close> and \<open>Validator\<close> return are the same.
\<close>

theorem reporting_keeps_position:
  "(\<exists>added. ctx (final (ReportError field fieldName altName tag w))
              = (ctx w)\<lparr>errs := errs (ctx w) @ added\<rparr>)
   \<and> (\<exists>added. ctx (final (ReportValidationErrors relativeNamespace relativeActualNamespace es w))
              = (ctx w)\<lparr>errs := errs (ctx w) @ added\<rparr>)
   \<and> slNs (ctx (final (do_call c w))) = slNs (ctx w)
   \<and> slStructNs (ctx (final (do_call c w))) = slStructNs (ctx w)
   \<and> Top (ctx (final (do_call c w))) = Top (ctx w)
   \<and> Parent (ctx (final (do_call c w))) = Parent (ctx w)
   \<and> Current (ctx (final (do_call c w))) = Current (ctx w)
   \<and> Validator (ctx (final (do_call c w))) = Validator (ctx w)"
proof -
  obtain added where "ctx (final (do_call c w)) = (ctx w)\<lparr>errs := errs (ctx w) @ added\<rparr>"
    using do_call_ctx by blast
  then have "slNs (ctx (final (do_call c w))) = slNs (ctx w)
   \<and> slStructNs (ctx (final (do_call c w))) = slStructNs (ctx w)
   \<and> Top (ctx (final (do_call c w))) = Top (ctx w)
   \<and> Parent (ctx (final (do_call c w))) = Parent (ctx w)
   \<and> Current (ctx (final (do_call c w))) = Current (ctx w)
   \<and> Validator (ctx (final (do_call c w))) = Validator (ctx w)"
    by (simp add: Top_def Parent_def Current_def Validator_def)
  then show ?thesis
    using ReportError_ctx[of field fieldName altName tag w]
      RVE_ctx[of relativeNamespace relativeActualNamespace es w]
    by blast
qed

subsection \<open>C10: \<open>ReportValidationErrors\<close> and foreign errors\<close>

text \<open>
  Claim C10: \<open>ReportValidationErrors\<close> returns exactly when every element of the batch
  is a \<open>*fieldError\<close> that points to a record; and when the batch holds a value of
  another type that implements \<open>FieldError\<close>, the call panics, and that value is not
  among the errors appended before the panic.
\<close>

theorem ReportValidationErrors_returns_iff_records:
  "((\<exists>w'. ReportValidationErrors relativeNamespace relativeActualNamespace es w = Inr w')
      \<longleftrightarrow> list_all (is_record (heap w)) es)
   \<and> (OtherFieldError n \<in> set es \<longrightarrow>
        (\<exists>p w' added. ReportValidationErrors relativeNamespace relativeActualNamespace es w = Inl (p, w')
            \<and> errs (ctx w') = errs (ctx w) @ added \<and> OtherFieldError n \<notin> set added))"
proof (intro conjI impI)
  show "(\<exists>w'. ReportValidationErrors relativeNamespace relativeActualNamespace es w = Inr w')
      \<longleftrightarrow> list_all (is_record (heap w)) es"
    by (rule RVE_returns)
next
  assume o: "OtherFieldError n \<in> set es"
  moreover have "\<not> is_record (heap w) (OtherFieldError n)" by simp
  ultimately have "\<not> list_all (is_record (heap w)) es" unfolding list_all_iff by blast
  then have "\<not> (\<exists>w'. ReportValidationErrors relativeNamespace relativeActualNamespace es w = Inr w')"
    using RVE_returns[of relativeNamespace relativeActualNamespace es w] by simp
  then obtain p w' where
    r: "ReportValidationErrors relativeNamespace relativeActualNamespace es w = Inl (p, w')"
    by (cases "ReportValidationErrors relativeNamespace relativeActualNamespace es w") auto
  have "ctx (final (ReportValidationErrors relativeNamespace relativeActualNamespace es w)) =
     (ctx w)\<lparr>errs := errs (ctx w) @ takeWhile (is_record (heap w)) es\<rparr>"
    by (rule RVE_ctx)
  with r have e: "errs (ctx w') = errs (ctx w) @ takeWhile (is_record (heap w)) es" by simp
  have "OtherFieldError n \<notin> set (takeWhile (is_record (heap w)) es)"
    by (auto dest: set_takeWhileD)
  with r e show "\<exists>p w' added.
       ReportValidationErrors relativeNamespace relativeActualNamespace es w = Inl (p, w')
       \<and> errs (ctx w') = errs (ctx w) @ added \<and> OtherFieldError n \<notin> set added"
    by blast
qed

theorem ReportValidationErrors_returns_iff_records_witness:
  "OtherFieldError ''custom'' \<in> set [FieldErrorPtr (Some 0), OtherFieldError ''custom'']
   \<and> \<not> list_all (is_record (heap ex_world)) [FieldErrorPtr (Some 0), OtherFieldError ''custom'']
   \<and> (\<exists>p w' added.
        ReportValidationErrors [] [] [FieldErrorPtr (Some 0), OtherFieldError ''custom''] ex_world
          = Inl (p, w')
        \<and> errs (ctx w') = errs (ctx ex_world) @ added \<and> OtherFieldError ''custom'' \<notin> set added)"
proof -
  have h: "OtherFieldError ''custom'' \<in> set [FieldErrorPtr (Some 0), OtherFieldError ''custom'']"
    by simp
  have g: "\<not> list_all (is_record (heap ex_world)) [FieldErrorPtr (Some 0), OtherFieldError ''custom'']"
    by simp
  show ?thesis
    using h g ReportValidationErrors_returns_iff_records[where w = ex_world
        and es = "[FieldErrorPtr (Some 0), OtherFieldError ''custom'']" and n = "''custom''"
        and relativeNamespace = "[]" and relativeActualNamespace = "[]"]
    by blast
qed

end
